theory Spec2Isabelle
  imports Main "HOL-Library.Char_ord" "HOL-Library.List_Lexorder" "HOL-Library.Sublist"
begin

section \<open>Data model of scrape.py\<close>

text \<open>
  The script works on JSON objects held as Python dictionaries. A dictionary whose keys the
  script reads by name is a record here, one optional field per key: \<open>None\<close> is "the key
  is missing", the case the script's \<open>.get(key, default)\<close> calls and \<open>key in substance\<close>
  tests provide for. A value that is present has the type the script uses it at (a string
  where \<open>.lower()\<close> is called, a list where it is concatenated). The one field that the
  script compares with the JSON null is a route's \<open>duration\<close>; there \<open>None\<close> is that null.
  A Python string is a list of characters with code points below 256, so that \<open>length\<close> is
  Python's \<open>len\<close> and the order of \<open>HOL-Library.List_Lexorder\<close> over \<open>HOL-Library.Char_ord\<close>
  is Python's comparison of strings by code point. Payloads that the script only copies
  (dose tables, tolerance descriptors, combo notes) are opaque values of type \<open>json\<close>.
\<close>

type_synonym json = string

datatype error = KeyError string | ValueError

record roa =
  roa_name :: string
  roa_dose :: "json option"
  roa_duration :: "json option"

record pw_data =
  d_class :: "json option"
  d_toxicity :: "json option"
  d_addictionPotential :: "json option"
  d_tolerance :: "json option"
  d_crossTolerances :: "json option"

record combo =
  combo_name :: "string option"
  combo_body :: json

record properties =
  p_summary :: "string option"
  p_test_kits :: "string option"
  p_bioavailability :: "string option"

record links =
  l_experiences :: "string option"

text \<open>
  One record type serves both lists, as the dictionaries of both sources go through the same
  functions: a PsychonautWiki entry (lines 297-305) has \<open>url\<close>, \<open>name\<close>, \<open>aliases\<close>,
  \<open>data\<close>, \<open>roas\<close>; a TripSit entry has \<open>name\<close>, \<open>pretty_name\<close>, \<open>aliases\<close>,
  \<open>properties\<close>, \<open>combos\<close>, \<open>links\<close>. \<open>combos\<close> is a dictionary, kept as an association
  list in the order of \<open>combos.items()\<close>.
\<close>

record substance =
  s_name :: "string option"
  s_pretty_name :: "string option"
  s_aliases :: "string list option"
  s_url :: "string option"
  s_data :: "pw_data option"
  s_roas :: "roa list option"
  s_properties :: "properties option"
  s_combos :: "(string \<times> combo) list option"
  s_links :: "links option"

text \<open>The dictionary appended to \<open>substance_data\<close> (lines 463-480).\<close>

record canonical =
  c_url :: string
  c_experiencesUrl :: "string option"
  c_name :: string
  c_aliases :: "string list"
  c_aliasesStr :: string
  c_summary :: "string option"
  c_reagents :: "string option"
  c_classes :: "json option"
  c_toxicity :: "json option"
  c_addictionPotential :: "json option"
  c_tolerance :: "json option"
  c_crossTolerances :: "json option"
  c_roas :: "roa list"
  c_interactions :: "combo list option"

section \<open>String helpers\<close>

text \<open>
  \<open>str.lower()\<close> on code points below 256: the letters A-Z and the Latin-1 capitals
  (192-222 except the multiplication sign 215) move up by 32.
\<close>

definition lower_char :: "char \<Rightarrow> char" where
  "lower_char c =
     (let n = (of_char c :: nat)
      in if (65 \<le> n \<and> n \<le> 90) \<or> (192 \<le> n \<and> n \<le> 222 \<and> n \<noteq> 215)
         then char_of (n + 32) else c)"

definition lower :: "string \<Rightarrow> string" where
  "lower s = map lower_char s"

text \<open>\<open>str.strip()\<close>: the whitespace of Python below code point 256.\<close>

definition is_space :: "char \<Rightarrow> bool" where
  "is_space c =
     (let n = (of_char c :: nat)
      in (9 \<le> n \<and> n \<le> 13) \<or> (28 \<le> n \<and> n \<le> 32) \<or> n = 133 \<or> n = 160)"

definition strip :: "string \<Rightarrow> string" where
  "strip s = rev (dropWhile is_space (rev (dropWhile is_space s)))"

text \<open>\<open>sep.join(xs)\<close>.\<close>

fun join :: "string \<Rightarrow> string list \<Rightarrow> string" where
  "join sep [] = []"
| "join sep [x] = x"
| "join sep (x # y # ys) = x @ sep @ join sep (y # ys)"

section \<open>Name resolver (lines 40-54)\<close>

definition py_any :: "bool list \<Rightarrow> bool" where
  "py_any bs = list_ex (\<lambda>b. b) bs"

text \<open>The values of the keys of \<open>keys\<close> that are in the dictionary, in the order of the keys.\<close>

fun present :: "'a option list \<Rightarrow> 'a list" where
  "present [] = []"
| "present (None # vs) = present vs"
| "present (Some v # vs) = v # present vs"

definition get_aliases :: "substance \<Rightarrow> string list" where
  "get_aliases s = (case s_aliases s of None \<Rightarrow> [] | Some as \<Rightarrow> as)"

definition substance_name_match :: "string \<Rightarrow> substance \<Rightarrow> bool" where
  "substance_name_match nm s =
     (let lower_name = lower nm
      in py_any (map (\<lambda>v. lower_name = lower v) (present [s_name s, s_pretty_name s])
                 @ map (\<lambda>alias. lower_name = lower alias) (get_aliases s)))"

definition find_substance_in_data :: "substance list \<Rightarrow> string \<Rightarrow> substance option" where
  "find_substance_in_data data nm = List.find (substance_name_match nm) data"

text \<open>
  Lines 345-358, once per source: look the name up and, if a record was found, remove it
  from the list (\<open>list.remove\<close> deletes the first element equal to its argument). A miss
  leaves the list as it is; the empty dictionary that the script then binds is \<open>None\<close> here.
\<close>

definition find_and_consume :: "substance list \<Rightarrow> string \<Rightarrow> substance option \<times> substance list" where
  "find_and_consume data nm =
     (case find_substance_in_data data nm of
        None \<Rightarrow> (None, data)
      | Some s \<Rightarrow> (Some s, remove1 s data))"

section \<open>Field mergers (lines 364-450)\<close>

text \<open>
  \<open>d.get(key)\<close> on the record of a source, where the record is the empty dictionary when
  the lookup found nothing.
\<close>

definition field :: "'r option \<Rightarrow> ('r \<Rightarrow> 'v option) \<Rightarrow> 'v option" where
  "field d key = (case d of None \<Rightarrow> None | Some r \<Rightarrow> key r)"

definition list_field :: "'r option \<Rightarrow> ('r \<Rightarrow> 'v list option) \<Rightarrow> 'v list" where
  "list_field d key = (case field d key of None \<Rightarrow> [] | Some vs \<Rightarrow> vs)"

text \<open>
  Line 367: \<open>pw_substance.get("url") or f"https://drugs.tripsit.me/{ts_substance['name']}"\<close>.
  A missing or empty url is falsy; the subscript raises when TripSit has no \<open>name\<close>.
\<close>

definition url_merger :: "substance option \<Rightarrow> substance option \<Rightarrow> error + string" where
  "url_merger pw_substance ts_substance =
     (let u = (case field pw_substance s_url of None \<Rightarrow> [] | Some v \<Rightarrow> v)
      in if u \<noteq> [] then Inr u
         else (case field ts_substance s_name of
                 None \<Rightarrow> Inl (KeyError ''name'')
               | Some n \<Rightarrow> Inr (''https://drugs.tripsit.me/'' @ n)))"

text \<open>Lines 375 and 387: \<open>filter(lambda n: n is not None and len(n) > 0, ...)\<close>.\<close>

definition nonempty :: "string option list \<Rightarrow> string list" where
  "nonempty vs = filter (\<lambda>n. 0 < length n) (present vs)"

definition names :: "substance option \<Rightarrow> substance option \<Rightarrow> string list" where
  "names pw_substance ts_substance =
     nonempty [field pw_substance s_name, field ts_substance s_pretty_name]"

text \<open>
  \<open>min(xs, key=f)\<close>: ValueError on the empty list; otherwise the first element is the
  candidate and a later one replaces it only when its key is strictly smaller.
\<close>

fun py_min :: "('a \<Rightarrow> nat) \<Rightarrow> 'a list \<Rightarrow> error + 'a" where
  "py_min f [] = Inl ValueError"
| "py_min f (x # xs) = Inr (foldl (\<lambda>best y. if f y < f best then y else best) x xs)"

definition name_merger :: "substance option \<Rightarrow> substance option \<Rightarrow> error + string" where
  "name_merger pw_substance ts_substance = py_min length (names pw_substance ts_substance)"

text \<open>
  Lines 383-396. The Python set is a duplicate-free list (its order does not matter, the
  result is sorted); \<open>aliases.remove\<close> runs only when the lowercased name is a member.
\<close>

definition aliases_merger :: "substance option \<Rightarrow> substance option \<Rightarrow> string \<Rightarrow> string list" where
  "aliases_merger pw_substance ts_substance nm =
     (let aliases = remdups (map lower (nonempty
            ([field pw_substance s_name, field ts_substance s_pretty_name]
             @ map Some (list_field pw_substance s_aliases)
             @ map Some (list_field ts_substance s_aliases))));
          aliases = (if lower nm \<in> set aliases then remove1 (lower nm) aliases else aliases)
      in sort aliases)"

text \<open>Lines 398-404: \<open>ts_properties.get(key, "").strip()\<close>, the empty string becomes None.\<close>

definition text_merger :: "string option \<Rightarrow> string option" where
  "text_merger v =
     (let s = strip (case v of None \<Rightarrow> [] | Some t \<Rightarrow> t)
      in if length s = 0 then None else Some s)"

text \<open>The two fixed tables of lines 78-108.\<close>

definition ts_combo_ignore :: "string list" where
  "ts_combo_ignore = [''benzos'']"

definition ts_combo_transformations :: "(string \<times> string) list" where
  "ts_combo_transformations =
     [(''lsd'', ''LSD''), (''mushrooms'', ''Mushrooms''), (''dmt'', ''DMT''),
      (''mescaline'', ''Mescaline''), (''dox'', ''DOx''), (''nbomes'', ''NBOMes''),
      (''2c-x'', ''2C-x''), (''2c-t-x'', ''2C-T-x''), (''amt'', ''aMT''),
      (''5-meo-xxt'', ''5-MeO-xxT''), (''cannabis'', ''Cannabis''),
      (''ketamine'', ''Ketamine''), (''mxe'', ''MXE''), (''dxm'', ''DXM''),
      (''pcp'', ''PCP''), (''nitrous'', ''Nitrous''), (''amphetamines'', ''Amphetamines''),
      (''mdma'', ''MDMA''), (''cocaine'', ''Cocaine''), (''caffeine'', ''Caffeine''),
      (''alcohol'', ''Alcohol''), (''ghb/gbl'', ''GHB/GBL''), (''opioids'', ''Opioids''),
      (''tramadol'', ''Tramadol''), (''benzodiazepines'', ''Benzodiazepines''),
      (''maois'', ''MAOIs''), (''ssris'', ''SSRIs'')]"

text \<open>
  Lines 435-440. \<open>combo_data\<close> is the dictionary stored in the TripSit record, so the
  assignment \<open>combo_data["name"] = ...\<close> writes into that record: the loop returns the
  \<open>combos\<close> dictionary as it is afterwards next to the list \<open>interactions\<close>. A key that
  is in neither table makes the subscript raise.
\<close>

fun combos_loop :: "(string \<times> combo) list \<Rightarrow> error + (string \<times> combo) list \<times> combo list" where
  "combos_loop [] = Inr ([], [])"
| "combos_loop ((key, combo_data) # rest) =
     (if key \<in> set ts_combo_ignore then
        (case combos_loop rest of
           Inl e \<Rightarrow> Inl e
         | Inr (combos, interactions) \<Rightarrow> Inr ((key, combo_data) # combos, interactions))
      else
        (case map_of ts_combo_transformations key of
           None \<Rightarrow> Inl (KeyError key)
         | Some pretty \<Rightarrow>
             (let combo_data = combo_data\<lparr>combo_name := Some pretty\<rparr>
              in case combos_loop rest of
                   Inl e \<Rightarrow> Inl e
                 | Inr (combos, interactions) \<Rightarrow>
                     Inr ((key, combo_data) # combos, combo_data # interactions))))"

text \<open>The sort key \<open>i["name"]\<close> of line 441; every element of the list has the key.\<close>

definition interaction_key :: "combo \<Rightarrow> string" where
  "interaction_key i = (case combo_name i of None \<Rightarrow> [] | Some n \<Rightarrow> n)"

text \<open>
  Lines 431-441: the interactions and the TripSit record after the loop. \<open>if combos\<close> is
  false for a missing key and for the empty dictionary. \<open>sorted\<close> is stable, as
  \<open>sort_key\<close> is.
\<close>

definition interactions_merger ::
    "substance option \<Rightarrow> error + combo list option \<times> substance option" where
  "interactions_merger ts_substance =
     (case field ts_substance s_combos of
        None \<Rightarrow> Inr (None, ts_substance)
      | Some combos \<Rightarrow>
          if combos = [] then Inr (None, ts_substance)
          else (case combos_loop combos of
                  Inl e \<Rightarrow> Inl e
                | Inr (combos', interactions) \<Rightarrow>
                    Inr (Some (sort_key interaction_key interactions),
                         map_option (\<lambda>t. t\<lparr>s_combos := Some combos'\<rparr>) ts_substance)))"

text \<open>Lines 424-450: the routes of PsychonautWiki, without those whose duration is null.\<close>

definition roas_merger :: "substance option \<Rightarrow> roa list" where
  "roas_merger pw_substance =
     filter (\<lambda>roai. roa_duration roai \<noteq> None) (list_field pw_substance s_roas)"

text \<open>
  The body of the loop from line 364 on, for the two records that the lookups gave. The
  result is the dictionary to append (\<open>None\<close> when line 454 skips the substance) together
  with the two source records as they are after the body has run, or the first exception
  raised. The bioavailability text of lines 406-414 is parsed into a local dictionary that
  nothing reads afterwards; \<open>re.findall\<close> and \<open>strip\<close> on a string neither raise nor write,
  so the local is left out.
\<close>

definition merge_fields ::
    "substance option \<Rightarrow> substance option \<Rightarrow>
     error + canonical option \<times> substance option \<times> substance option" where
  "merge_fields pw_substance ts_substance =
     (let ts_properties = field ts_substance s_properties;
          pw_data = field pw_substance s_data
      in case url_merger pw_substance ts_substance of
           Inl e \<Rightarrow> Inl e
         | Inr url \<Rightarrow>
        (case name_merger pw_substance ts_substance of
           Inl e \<Rightarrow> Inl e
         | Inr nm \<Rightarrow>
        (case interactions_merger ts_substance of
           Inl e \<Rightarrow> Inl e
         | Inr (interactions, ts_substance') \<Rightarrow>
        (let aliases = aliases_merger pw_substance ts_substance nm;
             roas = roas_merger pw_substance
         in if length roas < 1 then Inr (None, pw_substance, ts_substance')
            else Inr (Some \<lparr>
                   c_url = url,
                   c_experiencesUrl = field (field ts_substance s_links) l_experiences,
                   c_name = nm,
                   c_aliases = aliases,
                   c_aliasesStr = join '','' aliases,
                   c_summary = text_merger (field ts_properties p_summary),
                   c_reagents = text_merger (field ts_properties p_test_kits),
                   c_classes = field pw_data d_class,
                   c_toxicity = field pw_data d_toxicity,
                   c_addictionPotential = field pw_data d_addictionPotential,
                   c_tolerance = field pw_data d_tolerance,
                   c_crossTolerances = field pw_data d_crossTolerances,
                   c_roas = roas,
                   c_interactions = interactions\<rparr>,
                 pw_substance, ts_substance')))))"

section \<open>Reconciliation loop (lines 335-480)\<close>

definition primary_name :: "substance \<Rightarrow> string" where
  "primary_name s = lower (case s_name s of None \<Rightarrow> [] | Some n \<Rightarrow> n)"

text \<open>Lines 335-340: \<open>sorted(set(...))\<close>.\<close>

definition all_substance_names :: "substance list \<Rightarrow> substance list \<Rightarrow> string list" where
  "all_substance_names pw_substance_data ts_substances_data =
     sort (remdups (map primary_name pw_substance_data @ map primary_name ts_substances_data))"

text \<open>
  The \<open>for\<close> loop over the names, with the two source lists and the output list as state.
  Each appended dictionary carries, as a ghost component, the name of the iteration that
  appended it; the script's \<open>substance_data\<close> is the list of second components.
  An exception ends the script before anything is written.
\<close>

fun merge_loop ::
    "string list \<Rightarrow> substance list \<Rightarrow> substance list \<Rightarrow> (string \<times> canonical) list \<Rightarrow>
     error + (string \<times> canonical) list" where
  "merge_loop [] pw_substance_data ts_substances_data substance_data = Inr substance_data"
| "merge_loop (nm # rest) pw_substance_data ts_substances_data substance_data =
     (case find_and_consume pw_substance_data nm of (pw_substance, pw_substance_data') \<Rightarrow>
      case find_and_consume ts_substances_data nm of (ts_substance, ts_substances_data') \<Rightarrow>
        if pw_substance = None \<and> ts_substance = None
        then merge_loop rest pw_substance_data' ts_substances_data' substance_data
        else (case merge_fields pw_substance ts_substance of
                Inl e \<Rightarrow> Inl e
              | Inr (None, _) \<Rightarrow>
                  merge_loop rest pw_substance_data' ts_substances_data' substance_data
              | Inr (Some c, _) \<Rightarrow>
                  merge_loop rest pw_substance_data' ts_substances_data'
                    (substance_data @ [(nm, c)])))"

definition reconcile_trace ::
    "substance list \<Rightarrow> substance list \<Rightarrow> error + (string \<times> canonical) list" where
  "reconcile_trace pw_substance_data ts_substances_data =
     merge_loop (all_substance_names pw_substance_data ts_substances_data)
       pw_substance_data ts_substances_data []"

definition reconcile :: "substance list \<Rightarrow> substance list \<Rightarrow> error + canonical list" where
  "reconcile pw_substance_data ts_substances_data =
     (case reconcile_trace pw_substance_data ts_substances_data of
        Inl e \<Rightarrow> Inl e
      | Inr out \<Rightarrow> Inr (map snd out))"

text \<open>
  The loop seen from outside, one iteration at a time. The source list before the iteration
  of the i-th name is the input list after the lookups of all earlier names, each of which
  removes what it finds; the i-th iteration looks its name up in both lists and appends
  what the loop body gives, if anything.
\<close>

definition lists_before :: "string list \<Rightarrow> substance list \<Rightarrow> nat \<Rightarrow> substance list" where
  "lists_before ns L i = foldl (\<lambda>L n. snd (find_and_consume L n)) L (take i ns)"

definition visit ::
    "string list \<Rightarrow> substance list \<Rightarrow> substance list \<Rightarrow> nat \<Rightarrow> (string \<times> canonical) list" where
  "visit ns P T i =
     (let n = ns ! i;
          pw = fst (find_and_consume (lists_before ns P i) n);
          ts = fst (find_and_consume (lists_before ns T i) n)
      in if pw = None \<and> ts = None then []
         else (case merge_fields pw ts of
                 Inr (Some c, _) \<Rightarrow> [(n, c)]
               | _ \<Rightarrow> []))"

section \<open>Retry helper and its call site (lines 136-146, 280-291, 320-323)\<close>

text \<open>
  The function passed to \<open>try_three_times\<close> talks to the network: its outcome on its
  k-th call is \<open>func k\<close>, either a value or a raised exception with its message. The log
  records what the helper does besides returning: the calls, the messages printed to the
  error stream and the seconds slept. Falling off the end of the loop returns Python's None.
\<close>

datatype 'a attempt = Returns 'a | Raises string

datatype event = Call nat | PrintErr string | Sleep nat

function try_loop :: "(nat \<Rightarrow> 'a attempt) \<Rightarrow> nat \<Rightarrow> event list \<Rightarrow> 'a option \<times> event list" where
  "try_loop func attempt log =
     (if attempt < 3 then
        (case func attempt of
           Returns v \<Rightarrow> (Some v, log @ [Call attempt])
         | Raises e \<Rightarrow> try_loop func (attempt + 1) (log @ [Call attempt, PrintErr e, Sleep 1]))
      else (None, log))"
  by pat_completeness auto
termination
  by (relation "measure (\<lambda>(func, attempt, log). 3 - attempt)") auto

definition try_three_times :: "(nat \<Rightarrow> 'a attempt) \<Rightarrow> 'a option \<times> event list" where
  "try_three_times func = try_loop func 0 []"

text \<open>
  Lines 280-289 inside the \<open>try\<close> of line 169 with its handler of lines 320-323:
  \<open>len(data)\<close> on None raises TypeError, which the bare \<open>except\<close> turns into \<open>exit(1)\<close>;
  an empty answer skips the substance with \<open>continue\<close>; otherwise the first dataset is used.
\<close>

datatype 'd site_outcome = Exit nat | Skip | Dataset 'd

definition query_call_site :: "'d list option \<Rightarrow> 'd site_outcome" where
  "query_call_site data =
     (case data of
        None \<Rightarrow> Exit 1
      | Some [] \<Rightarrow> Skip
      | Some (d # _) \<Rightarrow> Dataset d)"

section \<open>Properties of output entries\<close>


text \<open>
  The conditions under which display names are unique. A PsychonautWiki record and a
  TripSit record have the same candidate when the name of the first and the pretty name of the
  second are the same non-empty string. Such a pair is found together when every name of
  the iteration that matches one of the two matches, in each list, that record and no other.
  The invariant of the loop: the names given out so far are pairwise different and are not
  candidates of a record still in the lists, and the candidates within each list are
  pairwise different.
\<close>

definition same_candidate :: "substance \<Rightarrow> substance \<Rightarrow> bool" where
  "same_candidate p t \<longleftrightarrow>
     (case s_name p of None \<Rightarrow> False | Some x \<Rightarrow> x \<noteq> [] \<and> s_pretty_name t = Some x)"

definition found_together :: "string list \<Rightarrow> substance list \<Rightarrow> substance list \<Rightarrow> bool" where
  "found_together ns P T \<longleftrightarrow>
     (\<forall>p\<in>set P. \<forall>t\<in>set T. same_candidate p t \<longrightarrow>
        (\<forall>n\<in>set ns. substance_name_match n p \<or> substance_name_match n t \<longrightarrow>
           filter (substance_name_match n) P = [p] \<and> filter (substance_name_match n) T = [t]))"

definition names_inv ::
    "string list \<Rightarrow> substance list \<Rightarrow> substance list \<Rightarrow> (string \<times> canonical) list \<Rightarrow> bool" where
  "names_inv ns P T acc \<longleftrightarrow>
     distinct (map (\<lambda>e. c_name (snd e)) acc)
     \<and> distinct (nonempty (map s_name P)) \<and> distinct (nonempty (map s_pretty_name T))
     \<and> (\<forall>e\<in>set acc. c_name (snd e) \<notin> set (nonempty (map s_name P))
                     \<and> c_name (snd e) \<notin> set (nonempty (map s_pretty_name T)))
     \<and> found_together ns P T"

text \<open>
  The alias list in the words of the specification, to be compared with \<open>aliases_merger\<close>:
  the union of the PsychonautWiki name, the TripSit pretty name and the alias lists of both
  sources, lowercased, as a set, without the lowercased display name, sorted ascending.
\<close>

definition aliases_as_claimed ::
    "substance option \<Rightarrow> substance option \<Rightarrow> string \<Rightarrow> string list" where
  "aliases_as_claimed pw_substance ts_substance nm =
     sorted_list_of_set
       (lower ` (set (present [field pw_substance s_name, field ts_substance s_pretty_name])
                 \<union> set (list_field pw_substance s_aliases)
                 \<union> set (list_field ts_substance s_aliases))
        - {lower nm})"

section \<open>Example records\<close>

text \<open>
  The dictionary without keys, a route with duration data, and the LSD entries of the two
  sources: the inputs at which the theorems below are evaluated.
\<close>

definition empty_dict :: substance where
  "empty_dict = \<lparr>s_name = None, s_pretty_name = None, s_aliases = None, s_url = None,
     s_data = None, s_roas = None, s_properties = None, s_combos = None, s_links = None\<rparr>"

definition oral :: roa where
  "oral = \<lparr>roa_name = ''Oral'', roa_dose = None, roa_duration = Some ''8-12 hours''\<rparr>"

definition pw_lsd :: substance where
  "pw_lsd = empty_dict\<lparr>s_name := Some ''LSD'', s_aliases := Some [''Acid''],
     s_url := Some ''https://psychonautwiki.org/wiki/LSD'', s_roas := Some [oral]\<rparr>"

definition ts_lsd :: substance where
  "ts_lsd = empty_dict\<lparr>s_name := Some ''lsd'', s_pretty_name := Some ''Acid'',
     s_aliases := Some [],
     s_combos := Some [(''mdma'', \<lparr>combo_name = None, combo_body = ''Low Risk''\<rparr>)]\<rparr>"

definition canonical_lsd :: canonical where
  "canonical_lsd = \<lparr>
     c_url = ''https://psychonautwiki.org/wiki/LSD'', c_experiencesUrl = None,
     c_name = ''LSD'', c_aliases = [''acid''], c_aliasesStr = ''acid'',
     c_summary = None, c_reagents = None, c_classes = None, c_toxicity = None,
     c_addictionPotential = None, c_tolerance = None, c_crossTolerances = None,
     c_roas = [oral],
     c_interactions = Some [\<lparr>combo_name = Some ''MDMA'', combo_body = ''Low Risk''\<rparr>]\<rparr>"

text \<open>
  Two PsychonautWiki entries to which TripSit gives the same pretty name; the alias list of
  the first has an empty entry, as \<open>"".split(", ")\<close> of line 194 produces one.
\<close>

definition pw_psilocin :: substance where
  "pw_psilocin = empty_dict\<lparr>s_name := Some ''Psilocin'',
     s_aliases := Some ['''', ''4-HO-DMT''],
     s_url := Some ''https://psychonautwiki.org/wiki/Psilocin'', s_roas := Some [oral]\<rparr>"

definition pw_psilocybin :: substance where
  "pw_psilocybin = empty_dict\<lparr>s_name := Some ''Psilocybin'',
     s_url := Some ''https://psychonautwiki.org/wiki/Psilocybin'', s_roas := Some [oral]\<rparr>"

definition ts_psilocin :: substance where
  "ts_psilocin = empty_dict\<lparr>s_name := Some ''psilocin'', s_pretty_name := Some ''Shrooms''\<rparr>"

definition ts_psilocybin :: substance where
  "ts_psilocybin =
     empty_dict\<lparr>s_name := Some ''psilocybin'', s_pretty_name := Some ''Shrooms''\<rparr>"

text \<open>
  A TripSit entry with an empty pretty name, and one whose combos have a key that is in
  neither table of lines 78-108.
\<close>

definition ts_unnamed :: substance where
  "ts_unnamed = empty_dict\<lparr>s_name := Some ''2c-b'', s_pretty_name := Some ''''\<rparr>"

definition ts_new_combo :: substance where
  "ts_new_combo = empty_dict\<lparr>s_name := Some ''lsd'', s_pretty_name := Some ''LSD'',
     s_combos := Some [(''diphenhydramine'',
                        \<lparr>combo_name = None, combo_body = ''Caution''\<rparr>)]\<rparr>"

text \<open>The Ketamine entries: both sources use the same display name.\<close>

definition pw_ketamine :: substance where
  "pw_ketamine = empty_dict\<lparr>s_name := Some ''Ketamine'',
     s_url := Some ''https://psychonautwiki.org/wiki/Ketamine'', s_roas := Some [oral]\<rparr>"

definition ts_ketamine :: substance where
  "ts_ketamine =
     empty_dict\<lparr>s_name := Some ''ketamine'', s_pretty_name := Some ''Ketamine''\<rparr>"

definition canonical_ketamine :: canonical where
  "canonical_ketamine = \<lparr>
     c_url = ''https://psychonautwiki.org/wiki/Ketamine'', c_experiencesUrl = None,
     c_name = ''Ketamine'', c_aliases = [], c_aliasesStr = '''',
     c_summary = None, c_reagents = None, c_classes = None, c_toxicity = None,
     c_addictionPotential = None, c_tolerance = None, c_crossTolerances = None,
     c_roas = [oral], c_interactions = None\<rparr>"

section \<open>Theorems\<close>

subsection \<open>Lookup and removal\<close>

lemma find_and_consume_Some:
  "find_and_consume L n = (Some r, L') \<Longrightarrow>
     r \<in> set L \<and> substance_name_match n r \<and> L' = remove1 r L"
  by (auto simp: find_and_consume_def find_substance_in_data_def find_Some_iff
           split: option.splits)

lemma find_and_consume_None: "find_and_consume L n = (None, L') \<Longrightarrow> L' = L"
  by (auto simp: find_and_consume_def split: option.splits)

lemma find_and_consume_subset: "find_and_consume L n = (r, L') \<Longrightarrow> set L' \<subseteq> set L"
  using set_remove1_subset[of _ L]
  by (auto simp: find_and_consume_def split: option.splits)

lemma count_list_remove1: "count_list (remove1 r L) r = count_list L r - 1"
  by (induction L) auto

lemma lower_append: "lower (xs @ ys) = lower xs @ lower ys"
  by (simp add: lower_def)

text \<open>
  C9. The match predicate is true exactly when the name equals, after lowercasing both
  sides, the record's primary name (if the key is there), its pretty name (if the key is
  there) or some entry of its alias list (if the key is there); for any other name it is
  false. Lowercasing works letter by letter, takes A-Z to a-z and leaves lowercase letters,
  digits, the space and the hyphen as they are, so the comparison ignores case and nothing
  else.
\<close>

theorem substance_name_match_iff:
  "(substance_name_match nm s \<longleftrightarrow>
      (\<exists>x. (s_name s = Some x \<or> s_pretty_name s = Some x
             \<or> (\<exists>as. s_aliases s = Some as \<and> x \<in> set as))
           \<and> lower nm = lower x))
   \<and> lower ''ABCDEFGHIJKLMNOPQRSTUVWXYZ'' = ''abcdefghijklmnopqrstuvwxyz''
   \<and> lower ''abcdefghijklmnopqrstuvwxyz0123456789 -''
       = ''abcdefghijklmnopqrstuvwxyz0123456789 -''
   \<and> length (lower xs) = length xs
   \<and> lower (xs @ ys) = lower xs @ lower ys"
proof -
  have m: "substance_name_match nm s \<longleftrightarrow>
      (\<exists>x. (s_name s = Some x \<or> s_pretty_name s = Some x
             \<or> (\<exists>as. s_aliases s = Some as \<and> x \<in> set as))
           \<and> lower nm = lower x)"
    by (cases "s_name s"; cases "s_pretty_name s"; cases "s_aliases s")
       (auto simp: substance_name_match_def py_any_def list_ex_iff Let_def get_aliases_def)
  have u: "lower ''ABCDEFGHIJKLMNOPQRSTUVWXYZ'' = ''abcdefghijklmnopqrstuvwxyz''"
    by code_simp
  have l: "lower ''abcdefghijklmnopqrstuvwxyz0123456789 -''
       = ''abcdefghijklmnopqrstuvwxyz0123456789 -''"
    by code_simp
  have n: "length (lower xs) = length xs"
    by (simp add: lower_def)
  show ?thesis
    using m u l n lower_append by blast
qed

theorem substance_name_match_iff_witness:
  "substance_name_match ''lsd'' pw_lsd
   \<and> substance_name_match ''aCiD'' pw_lsd
   \<and> substance_name_match ''ACID'' ts_lsd
   \<and> \<not> substance_name_match ''mdma'' pw_lsd
   \<and> \<not> substance_name_match ''acid'' ts_ketamine"
proof -
  have n: "s_name pw_lsd = Some ''LSD''" "s_pretty_name pw_lsd = None"
      "s_aliases pw_lsd = Some [''Acid'']"
    by (simp_all add: pw_lsd_def empty_dict_def)
  have p: "s_pretty_name ts_lsd = Some ''Acid''"
    by (simp add: ts_lsd_def empty_dict_def)
  have k: "s_name ts_ketamine = Some ''ketamine''"
      "s_pretty_name ts_ketamine = Some ''Ketamine''" "s_aliases ts_ketamine = None"
    by (simp_all add: ts_ketamine_def empty_dict_def)
  have e: "lower ''lsd'' = lower ''LSD''" "lower ''aCiD'' = lower ''Acid''"
      "lower ''ACID'' = lower ''Acid''"
    by code_simp+
  have d: "lower ''mdma'' \<noteq> lower ''LSD''" "lower ''mdma'' \<noteq> lower ''Acid''"
      "lower ''acid'' \<noteq> lower ''ketamine''" "lower ''acid'' \<noteq> lower ''Ketamine''"
    by code_simp+
  have 1: "substance_name_match ''lsd'' pw_lsd"
    using substance_name_match_iff [of "''lsd''" pw_lsd] n e by blast
  have 2: "substance_name_match ''aCiD'' pw_lsd"
    using substance_name_match_iff [of "''aCiD''" pw_lsd] n e by auto
  have 3: "substance_name_match ''ACID'' ts_lsd"
    using substance_name_match_iff [of "''ACID''" ts_lsd] p e by blast
  have 4: "\<not> substance_name_match ''mdma'' pw_lsd"
    using substance_name_match_iff [of "''mdma''" pw_lsd] n d by auto
  have 5: "\<not> substance_name_match ''acid'' ts_ketamine"
    using substance_name_match_iff [of "''acid''" ts_ketamine] k d by auto
  show ?thesis
    using 1 2 3 4 5 by blast
qed

text \<open>
  C5. Consume-once. A lookup that returns the record r removes it from the list, so a
  second lookup against the list, for whatever name n2, does not return r again: of two
  lookups in a row at most one returns r. List entries are values here, so "the same single
  record" is a record that occurs once in the list; the names need not even differ.
\<close>

theorem consume_once:
  assumes "count_list L r \<le> 1"
  shows "(fst (find_and_consume L n1) = Some r \<longrightarrow> r \<notin> set (snd (find_and_consume L n1)))
     \<and> \<not> (fst (find_and_consume L n1) = Some r
            \<and> fst (find_and_consume (snd (find_and_consume L n1)) n2) = Some r)"
proof -
  have gone: "r \<notin> set (snd (find_and_consume L n1))"
    if ret: "fst (find_and_consume L n1) = Some r"
  proof -
    obtain L' where first: "find_and_consume L n1 = (Some r, L')"
      using ret by (cases "find_and_consume L n1") auto
    then have "L' = remove1 r L"
      by (simp add: find_and_consume_Some)
    then have "count_list L' r = 0"
      using assms by (simp add: count_list_remove1)
    then show ?thesis
      using first count_list_0_iff[of L' r] by simp
  qed
  have "r \<in> set L'" if ret: "fst (find_and_consume L' n2) = Some r" for L'
  proof -
    obtain L'' where "find_and_consume L' n2 = (Some r, L'')"
      using ret by (cases "find_and_consume L' n2") auto
    then show ?thesis
      by (simp add: find_and_consume_Some)
  qed
  then show ?thesis
    using gone by blast
qed

theorem consume_once_witness:
  "count_list [pw_lsd] pw_lsd \<le> 1
   \<and> fst (find_and_consume [pw_lsd] ''lsd'') = Some pw_lsd
   \<and> pw_lsd \<notin> set (snd (find_and_consume [pw_lsd] ''lsd''))
   \<and> fst (find_and_consume (snd (find_and_consume [pw_lsd] ''lsd'')) ''acid'') \<noteq> Some pw_lsd"
proof -
  have h: "count_list [pw_lsd] pw_lsd \<le> 1"
    by simp
  have a: "fst (find_and_consume [pw_lsd] ''lsd'') = Some pw_lsd"
    by code_simp
  show ?thesis
    using h a consume_once [OF h, of "''lsd''" "''acid''"] by blast
qed

subsection \<open>Display name\<close>

lemma foldl_min_in:
  "foldl (\<lambda>best y. if f y < f best then y else best) x xs \<in> set (x # xs)"
  by (induction xs arbitrary: x) auto

lemma foldl_min_le:
  "f (foldl (\<lambda>best y. if (f y :: nat) < f best then y else best) x xs) \<le> f x"
proof (induction xs arbitrary: x)
  case Nil
  then show ?case by simp
next
  case (Cons y ys)
  show ?case using Cons[of y] Cons[of x] by auto
qed

lemma foldl_min_least:
  "m \<in> set (x # xs) \<Longrightarrow>
     f (foldl (\<lambda>best y. if (f y :: nat) < f best then y else best) x xs) \<le> f m"
proof (induction xs arbitrary: x)
  case Nil
  then show ?case by simp
next
  case (Cons y ys)
  then show ?case
    using foldl_min_le[of f y ys] foldl_min_le[of f x ys] by (auto simp: le_trans)
qed

lemma py_min_spec:
  "xs \<noteq> [] \<Longrightarrow> \<exists>n. py_min f xs = Inr n \<and> n \<in> set xs \<and> (\<forall>m \<in> set xs. f n \<le> f m)"
  using foldl_min_in[of f] foldl_min_least[of _ _ _ f] by (cases xs) auto

text \<open>What one pass of the loop body gives when it ends without an exception.\<close>

lemma merge_fields_emit:
  assumes "merge_fields pw ts = Inr (Some c, pw', ts')"
  shows "c_roas c = roas_merger pw \<and> c_roas c \<noteq> [] \<and> c_name c \<in> set (names pw ts)
     \<and> name_merger pw ts = Inr (c_name c) \<and> c_aliases c = aliases_merger pw ts (c_name c)"
proof -
  obtain nm where nm: "name_merger pw ts = Inr nm"
    using assms
    by (cases "name_merger pw ts") (auto simp: merge_fields_def Let_def split: sum.splits)
  have "c_roas c = roas_merger pw \<and> c_roas c \<noteq> [] \<and> c_name c = nm
        \<and> c_aliases c = aliases_merger pw ts nm"
    using assms nm by (auto simp: merge_fields_def Let_def split: sum.splits if_splits)
  moreover have "nm \<in> set (names pw ts)"
    using nm foldl_min_in[of length] by (cases "names pw ts") (auto simp: name_merger_def)
  ultimately show ?thesis using nm by auto
qed


text \<open>The three ways one iteration can continue without raising.\<close>

lemma merge_loop_step:
  assumes "merge_loop (n # ns) P T acc = Inr out"
    and "find_and_consume P n = (po, P')" and "find_and_consume T n = (to, T')"
  shows "merge_loop ns P' T' acc = Inr out
         \<or> (\<exists>c pw' ts'. merge_fields po to = Inr (Some c, pw', ts')
               \<and> merge_loop ns P' T' (acc @ [(n, c)]) = Inr out)"
  using assms by (auto split: if_splits sum.splits option.splits)

text \<open>
  C7. When at least one of the PsychonautWiki name and the TripSit pretty name is there and
  non-empty, the display name is one of the non-empty ones, no other non-empty one is
  shorter, and when both are non-empty and equally long it is the PsychonautWiki name.
  A record that the loop body emits for the pair has this name.
\<close>

theorem name_merger_shortest:
  assumes "names pw ts \<noteq> []"
  shows "\<exists>n. name_merger pw ts = Inr n
           \<and> n \<noteq> [] \<and> (field pw s_name = Some n \<or> field ts s_pretty_name = Some n)
           \<and> (\<forall>m. m \<noteq> [] \<and> (field pw s_name = Some m \<or> field ts s_pretty_name = Some m)
                  \<longrightarrow> length n \<le> length m)
           \<and> (\<forall>a b. field pw s_name = Some a \<and> field ts s_pretty_name = Some b
                    \<and> a \<noteq> [] \<and> b \<noteq> [] \<and> length a = length b \<longrightarrow> n = a)
           \<and> (\<forall>c pw' ts'. merge_fields pw ts = Inr (Some c, pw', ts') \<longrightarrow> c_name c = n)"
proof -
  have set_names: "set (names pw ts) =
      {m. m \<noteq> [] \<and> (field pw s_name = Some m \<or> field ts s_pretty_name = Some m)}"
    by (cases "field pw s_name"; cases "field ts s_pretty_name")
       (auto simp: names_def nonempty_def)
  obtain n where n: "name_merger pw ts = Inr n" "n \<in> set (names pw ts)"
      "\<forall>m \<in> set (names pw ts). length n \<le> length m"
    using py_min_spec[OF assms, of length] by (auto simp: name_merger_def)
  have tie: "field pw s_name = Some a \<and> field ts s_pretty_name = Some b
                    \<and> a \<noteq> [] \<and> b \<noteq> [] \<and> length a = length b \<longrightarrow> n = a" for a b
    using n(1) by (auto simp: name_merger_def names_def nonempty_def)
  have emitted: "merge_fields pw ts = Inr (Some c, pw', ts') \<longrightarrow> c_name c = n" for c pw' ts'
    using n(1) merge_fields_emit[of pw ts c pw' ts'] by auto
  show ?thesis using n set_names tie emitted by auto
qed

theorem name_merger_shortest_witness:
  "names (Some pw_lsd) (Some ts_lsd) \<noteq> []
   \<and> name_merger (Some pw_lsd) (Some ts_lsd) = Inr ''LSD''
   \<and> (\<exists>n. name_merger (Some pw_lsd) (Some ts_lsd) = Inr n \<and> n \<noteq> []
          \<and> (field (Some pw_lsd) s_name = Some n \<or> field (Some ts_lsd) s_pretty_name = Some n))"
proof -
  have h: "names (Some pw_lsd) (Some ts_lsd) \<noteq> []"
    by code_simp
  have v: "name_merger (Some pw_lsd) (Some ts_lsd) = Inr ''LSD''"
    by code_simp
  show ?thesis
    using h v name_merger_shortest [OF h] by blast
qed

subsection \<open>Routes\<close>




subsection \<open>Order of the output\<close>

lemma all_substance_names_props:
  "sorted_wrt (<) (all_substance_names P T)
   \<and> set (all_substance_names P T) = primary_name ` (set P \<union> set T)"
  by (auto simp: all_substance_names_def strict_sorted_iff)

lemma merge_loop_order:
  "merge_loop ns P T acc = Inr out \<Longrightarrow> \<exists>ms. out = acc @ ms \<and> subseq (map fst ms) ns"
proof (induction ns arbitrary: P T acc)
  case Nil
  then show ?case by simp
next
  case (Cons n ns)
  obtain po P' where fp: "find_and_consume P n = (po, P')"
    by (cases "find_and_consume P n")
  obtain to T' where ft: "find_and_consume T n = (to, T')"
    by (cases "find_and_consume T n")
  from merge_loop_step[OF Cons.prems fp ft] show ?case
  proof (elim disjE exE conjE)
    assume "merge_loop ns P' T' acc = Inr out"
    then obtain ms where "out = acc @ ms" "subseq (map fst ms) ns"
      using Cons.IH by blast
    then show ?thesis by auto
  next
    fix c pw' ts'
    assume "merge_loop ns P' T' (acc @ [(n, c)]) = Inr out"
    then obtain ms where "out = (acc @ [(n, c)]) @ ms" "subseq (map fst ms) ns"
      using Cons.IH by blast
    then have "out = acc @ ((n, c) # ms)" "subseq (map fst ((n, c) # ms)) (n # ns)"
      by auto
    then show ?thesis by blast
  qed
qed

lemma subseq_strict_sorted:
  "subseq xs ys \<Longrightarrow> sorted_wrt (<) ys \<Longrightarrow> sorted_wrt (<) (xs :: 'a :: linorder list)"
  by (metis subseq_conv_nths sorted_nths distinct_nthsI strict_sorted_iff)

text \<open>Every name of the list gets its iteration: the output is what the visits append.\<close>

lemma lists_before_0: "lists_before ns L 0 = L"
  by (simp add: lists_before_def)

lemma lists_before_Suc:
  "lists_before (n # ns) L (Suc i) = lists_before ns (snd (find_and_consume L n)) i"
  by (simp add: lists_before_def)

lemma visit_Suc:
  "visit (n # ns) P T (Suc i)
     = visit ns (snd (find_and_consume P n)) (snd (find_and_consume T n)) i"
  by (simp add: visit_def lists_before_Suc)

lemma visits_Cons:
  "concat (map (visit (n # ns) P T) [0..<Suc (length ns)])
     = visit (n # ns) P T 0
       @ concat (map (visit ns (snd (find_and_consume P n)) (snd (find_and_consume T n)))
                     [0..<length ns])"
proof -
  have "[0..<Suc (length ns)] = 0 # map Suc [0..<length ns]"
    by (simp add: upt_conv_Cons map_Suc_upt del: upt_Suc)
  then show ?thesis
    by (simp add: visit_Suc comp_def del: upt_Suc)
qed

lemma merge_loop_visits:
  "merge_loop ns P T acc = Inr out \<Longrightarrow>
     out = acc @ concat (map (visit ns P T) [0..<length ns])"
proof (induction ns arbitrary: P T acc)
  case Nil
  then show ?case by simp
next
  case (Cons n ns)
  obtain po P' where fp: "find_and_consume P n = (po, P')"
    by (cases "find_and_consume P n")
  obtain to T' where ft: "find_and_consume T n = (to, T')"
    by (cases "find_and_consume T n")
  have rest: "concat (map (visit (n # ns) P T) [0..<length (n # ns)])
      = visit (n # ns) P T 0 @ concat (map (visit ns P' T') [0..<length ns])"
    using visits_Cons[of n ns P T] fp ft by simp
  show ?case
  proof (cases "po = None \<and> to = None")
    case True
    then have ml: "merge_loop ns P' T' acc = Inr out"
      using Cons.prems fp ft by simp
    have "visit (n # ns) P T 0 = []"
      using True fp ft by (simp add: visit_def lists_before_0)
    then show ?thesis
      using Cons.IH[OF ml] rest by simp
  next
    case False
    show ?thesis
    proof (cases "merge_fields po to")
      case (Inl e)
      then show ?thesis
        using Cons.prems fp ft False by simp
    next
      case (Inr res)
      obtain r pw' ts' where res: "res = (r, pw', ts')"
        by (cases res)
      show ?thesis
      proof (cases r)
        case None
        then have ml: "merge_loop ns P' T' acc = Inr out"
          using Cons.prems fp ft False Inr res by simp
        have "visit (n # ns) P T 0 = []"
          using False fp ft Inr res None by (simp add: visit_def lists_before_0)
        then show ?thesis
          using Cons.IH[OF ml] rest by simp
      next
        case (Some c)
        then have ml: "merge_loop ns P' T' (acc @ [(n, c)]) = Inr out"
          using Cons.prems fp ft False Inr res by simp
        have "visit (n # ns) P T 0 = [(n, c)]"
          using False fp ft Inr res Some by (simp add: visit_def lists_before_0)
        then show ?thesis
          using Cons.IH[OF ml] rest by simp
      qed
    qed
  qed
qed

text \<open>
  C10. The list of names that the loop walks through is strictly ascending (sorted, no name
  twice) and holds exactly the lowercased primary names of the records of both sources, so
  two names that differ only in case are one entry. Every name of that list is visited
  once, in the order of the list: the output is the concatenation, over the positions of
  the list, of what the iteration of each name appends, where the iteration of a name
  works on the lists as the lookups of all earlier names have left them. So the names of
  the iterations that appended the output records form, in output order, a subsequence of
  the list: the output is in ascending order of iteration name, whatever the order of the
  input lists.
\<close>

theorem output_in_sorted_name_order:
  "sorted_wrt (<) (all_substance_names P T)
   \<and> set (all_substance_names P T) = primary_name ` (set P \<union> set T)
   \<and> (reconcile_trace P T = Inr out \<longrightarrow>
        out = concat (map (visit (all_substance_names P T) P T)
                          [0..<length (all_substance_names P T)])
        \<and> subseq (map fst out) (all_substance_names P T)
        \<and> sorted_wrt (<) (map fst out))"
proof -
  have "subseq (map fst out) (all_substance_names P T)" if "reconcile_trace P T = Inr out"
    using merge_loop_order[of _ P T "[]" out] that by (auto simp: reconcile_trace_def)
  moreover have "out = concat (map (visit (all_substance_names P T) P T)
                          [0..<length (all_substance_names P T)])"
    if "reconcile_trace P T = Inr out"
    using merge_loop_visits[of _ P T "[]" out] that by (simp add: reconcile_trace_def)
  ultimately show ?thesis
    using all_substance_names_props[of P T] subseq_strict_sorted by blast
qed

theorem output_in_sorted_name_order_witness:
  "reconcile_trace [pw_lsd, pw_ketamine] [ts_lsd, ts_ketamine]
     = Inr [(''ketamine'', canonical_ketamine), (''lsd'', canonical_lsd)]
   \<and> all_substance_names [pw_lsd, pw_ketamine] [ts_lsd, ts_ketamine] = [''ketamine'', ''lsd'']
   \<and> [(''ketamine'', canonical_ketamine), (''lsd'', canonical_lsd)]
       = concat (map (visit (all_substance_names [pw_lsd, pw_ketamine] [ts_lsd, ts_ketamine])
                            [pw_lsd, pw_ketamine] [ts_lsd, ts_ketamine])
                     [0..<length (all_substance_names [pw_lsd, pw_ketamine]
                                                      [ts_lsd, ts_ketamine])])
   \<and> subseq (map fst [(''ketamine'', canonical_ketamine), (''lsd'', canonical_lsd)])
        (all_substance_names [pw_lsd, pw_ketamine] [ts_lsd, ts_ketamine])
   \<and> sorted_wrt (<) (map fst [(''ketamine'', canonical_ketamine), (''lsd'', canonical_lsd)])"
proof -
  have t: "reconcile_trace [pw_lsd, pw_ketamine] [ts_lsd, ts_ketamine]
     = Inr [(''ketamine'', canonical_ketamine), (''lsd'', canonical_lsd)]"
    by code_simp
  have n: "all_substance_names [pw_lsd, pw_ketamine] [ts_lsd, ts_ketamine]
     = [''ketamine'', ''lsd'']"
    by code_simp
  show ?thesis
    using t n output_in_sorted_name_order
      [of "[pw_lsd, pw_ketamine]" "[ts_lsd, ts_ketamine]"
          "[(''ketamine'', canonical_ketamine), (''lsd'', canonical_lsd)]"]
    by blast
qed

subsection \<open>Display names of the output\<close>

lemma present_append: "present (xs @ ys) = present xs @ present ys"
  by (induction xs rule: present.induct) auto

lemma present_map_Some: "present (map Some xs) = xs"
  by (induction xs) auto

lemma nonempty_append: "nonempty (xs @ ys) = nonempty xs @ nonempty ys"
  by (simp add: nonempty_def present_append)

text \<open>Removing a record takes its candidate name, if it has one, out of the candidates.\<close>

lemma nonempty_remove1:
  assumes "p \<in> set L"
  shows "\<exists>A B. nonempty (map f L) = A @ nonempty [f p] @ B
               \<and> nonempty (map f (remove1 p L)) = A @ B"
proof -
  obtain L1 L2 where L: "L = L1 @ p # L2" "p \<notin> set L1"
    using split_list_first[OF assms] by blast
  then have "remove1 p L = L1 @ L2"
    by (simp add: remove1_append)
  moreover have "nonempty (map f L)
      = nonempty (map f L1) @ nonempty [f p] @ nonempty (map f L2)"
    using L(1) nonempty_append[of "map f L1" "f p # map f L2"]
      nonempty_append[of "[f p]" "map f L2"]
    by simp
  ultimately show ?thesis
    using nonempty_append[of "map f L1" "map f L2"] by auto
qed

lemma consume_candidates:
  assumes "find_and_consume L n = (ro, L')"
  shows "\<exists>A B. nonempty (map f L) = A @ nonempty [field ro f] @ B
               \<and> nonempty (map f L') = A @ B"
proof (cases ro)
  case None
  then have "L' = L"
    using assms find_and_consume_None by blast
  moreover have "nonempty [field ro f] = []"
    using None by (simp add: field_def nonempty_def)
  ultimately show ?thesis
    by (intro exI[of _ "nonempty (map f L)"] exI[of _ "[]"]) simp
next
  case (Some r)
  then have "r \<in> set L" "L' = remove1 r L"
    using assms find_and_consume_Some by blast+
  then show ?thesis
    using nonempty_remove1[of r L f] Some by (simp add: field_def)
qed

lemma in_nonempty_map:
  "x \<in> set (nonempty (map f L)) \<longleftrightarrow> x \<noteq> [] \<and> (\<exists>r\<in>set L. f r = Some x)"
proof (induction L)
  case Nil
  then show ?case by (simp add: nonempty_def)
next
  case (Cons a L)
  then show ?case by (cases "f a") (auto simp: nonempty_def)
qed

lemma in_nonempty_single:
  "x \<in> set (nonempty [field ro f]) \<longleftrightarrow> x \<noteq> [] \<and> (\<exists>r. ro = Some r \<and> f r = Some x)"
  by (cases ro; cases "field ro f") (auto simp: nonempty_def field_def)

lemma find_filter_single:
  "filter Q L = [t] \<Longrightarrow> List.find Q L = Some t"
proof (induction L)
  case Nil
  then show ?case by simp
next
  case (Cons a L)
  then show ?case by (cases "Q a") auto
qed

text \<open>A name that matches exactly one entry, the record t, finds t and leaves no t behind.\<close>

lemma consume_single:
  assumes "filter (substance_name_match n) L = [t]" and "find_and_consume L n = (ro, L')"
  shows "ro = Some t \<and> t \<notin> set L'"
proof -
  have f: "find_substance_in_data L n = Some t"
    using find_filter_single[OF assms(1)] by (simp add: find_substance_in_data_def)
  then have r: "ro = Some t" "L' = remove1 t L"
    using assms(2) by (auto simp: find_and_consume_def)
  have "filter (substance_name_match n) L' = []"
    using r(2) assms(1) by (simp add: filter_remove1)
  moreover have "t \<in> set (filter (substance_name_match n) L)"
    using assms(1) by simp
  then have "substance_name_match n t"
    by simp
  ultimately have "t \<notin> set L'"
    by (simp add: filter_empty_conv) blast
  then show ?thesis using r(1) by simp
qed

lemma filter_after_consume:
  assumes "filter Q L = [p]" and "find_and_consume L n = (ro, L')" and "p \<in> set L'"
  shows "filter Q L' = [p]"
proof (cases ro)
  case None
  then show ?thesis using assms find_and_consume_None by blast
next
  case (Some r)
  then have L': "L' = remove1 r L" using assms(2) find_and_consume_Some by blast
  have "p \<in> set (filter Q L)" using assms(1) by simp
  then have Qp: "Q p" by simp
  have "filter Q L' = remove1 r [p]" using L' assms(1) by (simp add: filter_remove1)
  moreover have "p \<in> set (filter Q L')" using Qp assms(3) by simp
  ultimately show ?thesis by (cases "r = p") auto
qed

lemma found_together_step:
  assumes "found_together (n # ns) P T"
    and fp: "find_and_consume P n = (po, P')" and ft: "find_and_consume T n = (to, T')"
  shows "found_together ns P' T'"
  unfolding found_together_def
proof (intro ballI impI)
  fix p t n'
  assume p: "p \<in> set P'" and t: "t \<in> set T'" and sc: "same_candidate p t" and n': "n' \<in> set ns"
    and m: "substance_name_match n' p \<or> substance_name_match n' t"
  have "p \<in> set P" "t \<in> set T"
    using p t find_and_consume_subset[OF fp] find_and_consume_subset[OF ft] by blast+
  then have "filter (substance_name_match n') P = [p] \<and> filter (substance_name_match n') T = [t]"
    using assms(1) sc n' m unfolding found_together_def by auto
  then show "filter (substance_name_match n') P' = [p] \<and> filter (substance_name_match n') T' = [t]"
    using filter_after_consume[OF _ fp p] filter_after_consume[OF _ ft t] by blast
qed

text \<open>The name given out in an iteration is not a candidate of any record left behind.\<close>

lemma emitted_name_gone:
  assumes ft: "found_together (n # ns) P T"
    and dA: "distinct (nonempty (map s_name P))" and dB: "distinct (nonempty (map s_pretty_name T))"
    and fp: "find_and_consume P n = (po, P')" and fc: "find_and_consume T n = (to, T')"
    and x: "x \<in> set (names po to)"
  shows "x \<notin> set (nonempty (map s_name P')) \<and> x \<notin> set (nonempty (map s_pretty_name T'))"
proof -
  obtain A B where P: "nonempty (map s_name P) = A @ nonempty [field po s_name] @ B"
      "nonempty (map s_name P') = A @ B"
    using consume_candidates[OF fp, of s_name] by blast
  obtain C D where T:
      "nonempty (map s_pretty_name T) = C @ nonempty [field to s_pretty_name] @ D"
      "nonempty (map s_pretty_name T') = C @ D"
    using consume_candidates[OF fc, of s_pretty_name] by blast
  have "set (names po to)
      = set (nonempty [field po s_name]) \<union> set (nonempty [field to s_pretty_name])"
    using nonempty_append[of "[field po s_name]" "[field to s_pretty_name]"]
    by (simp add: names_def)
  then have nm: "x \<in> set (nonempty [field po s_name]) \<or> x \<in> set (nonempty [field to s_pretty_name])"
    using x by blast
  then show ?thesis
  proof
    assume xa: "x \<in> set (nonempty [field po s_name])"
    then obtain p where p: "po = Some p" "s_name p = Some x" "x \<noteq> []"
      using in_nonempty_single[of x po s_name] by blast
    have pP: "p \<in> set P" "substance_name_match n p"
      using fp p(1) find_and_consume_Some by blast+
    have 1: "x \<notin> set (nonempty (map s_name P'))"
      using dA xa unfolding P by auto
    have 2: "x \<notin> set (nonempty (map s_pretty_name T'))"
    proof
      assume "x \<in> set (nonempty (map s_pretty_name T'))"
      then obtain t where t: "t \<in> set T'" "s_pretty_name t = Some x"
        using in_nonempty_map[of x s_pretty_name T'] by blast
      then have tT: "t \<in> set T" using find_and_consume_subset[OF fc] by blast
      have "same_candidate p t" using p t(2) by (simp add: same_candidate_def)
      then have "filter (substance_name_match n) T = [t]"
        using ft pP tT unfolding found_together_def by auto
      then have "t \<notin> set T'" using consume_single[OF _ fc, of t] by blast
      then show False using t(1) by simp
    qed
    show ?thesis using 1 2 by simp
  next
    assume xb: "x \<in> set (nonempty [field to s_pretty_name])"
    then obtain t where t: "to = Some t" "s_pretty_name t = Some x" "x \<noteq> []"
      using in_nonempty_single[of x to s_pretty_name] by blast
    have tT: "t \<in> set T" "substance_name_match n t"
      using fc t(1) find_and_consume_Some by blast+
    have 1: "x \<notin> set (nonempty (map s_pretty_name T'))"
      using dB xb unfolding T by auto
    have 2: "x \<notin> set (nonempty (map s_name P'))"
    proof
      assume "x \<in> set (nonempty (map s_name P'))"
      then obtain p where p: "p \<in> set P'" "s_name p = Some x"
        using in_nonempty_map[of x s_name P'] by blast
      then have pP: "p \<in> set P" using find_and_consume_subset[OF fp] by blast
      have "same_candidate p t" using p(2) t by (simp add: same_candidate_def)
      then have "filter (substance_name_match n) P = [p]"
        using ft pP tT unfolding found_together_def by auto
      then have "p \<notin> set P'" using consume_single[OF _ fp, of p] by blast
      then show False using p(1) by simp
    qed
    show ?thesis using 1 2 by simp
  qed
qed

lemma candidates_after_consume:
  assumes "find_and_consume L n = (ro, L')" and "distinct (nonempty (map f L))"
  shows "distinct (nonempty (map f L')) \<and> set (nonempty (map f L')) \<subseteq> set (nonempty (map f L))
         \<and> set (nonempty [field ro f]) \<subseteq> set (nonempty (map f L))"
proof -
  obtain A B where "nonempty (map f L) = A @ nonempty [field ro f] @ B"
      "nonempty (map f L') = A @ B"
    using consume_candidates[OF assms(1), of f] by blast
  then show ?thesis using assms(2) by auto
qed

lemma merge_loop_names_inv:
  "merge_loop ns P T acc = Inr out \<Longrightarrow> names_inv ns P T acc \<Longrightarrow>
   distinct (map (\<lambda>e. c_name (snd e)) out)"
proof (induction ns arbitrary: P T acc)
  case Nil
  then show ?case by (simp add: names_inv_def)
next
  case (Cons n ns)
  obtain po P' where fp: "find_and_consume P n = (po, P')"
    by (cases "find_and_consume P n")
  obtain to T' where ft: "find_and_consume T n = (to, T')"
    by (cases "find_and_consume T n")
  note inv = Cons.prems(2)[unfolded names_inv_def]
  have cA: "distinct (nonempty (map s_name P'))"
      "set (nonempty (map s_name P')) \<subseteq> set (nonempty (map s_name P))"
      "set (nonempty [field po s_name]) \<subseteq> set (nonempty (map s_name P))"
    using candidates_after_consume[OF fp, of s_name] inv by blast+
  have cB: "distinct (nonempty (map s_pretty_name T'))"
      "set (nonempty (map s_pretty_name T')) \<subseteq> set (nonempty (map s_pretty_name T))"
      "set (nonempty [field to s_pretty_name]) \<subseteq> set (nonempty (map s_pretty_name T))"
    using candidates_after_consume[OF ft, of s_pretty_name] inv by blast+
  have tog: "found_together ns P' T'"
    using found_together_step[OF _ fp ft] inv by blast
  have skip: "names_inv ns P' T' acc"
    unfolding names_inv_def using inv cA cB tog by blast
  from merge_loop_step[OF Cons.prems(1) fp ft] show ?case
  proof (elim disjE exE conjE)
    assume ml: "merge_loop ns P' T' acc = Inr out"
    show ?thesis using Cons.IH[OF ml skip] .
  next
    fix c pw' ts'
    assume mf: "merge_fields po to = Inr (Some c, pw', ts')"
      and ml: "merge_loop ns P' T' (acc @ [(n, c)]) = Inr out"
    have x: "c_name c \<in> set (names po to)"
      using merge_fields_emit[OF mf] by blast
    have gone: "c_name c \<notin> set (nonempty (map s_name P'))"
        "c_name c \<notin> set (nonempty (map s_pretty_name T'))"
      using emitted_name_gone[OF _ _ _ fp ft x] inv by blast+
    have "set (names po to)
        = set (nonempty [field po s_name]) \<union> set (nonempty [field to s_pretty_name])"
      using nonempty_append[of "[field po s_name]" "[field to s_pretty_name]"]
      by (simp add: names_def)
    then have "c_name c \<in> set (nonempty (map s_name P)) \<union> set (nonempty (map s_pretty_name T))"
      using x cA(3) cB(3) by blast
    then have new: "c_name c \<notin> set (map (\<lambda>e. c_name (snd e)) acc)"
      using inv by auto
    have "names_inv ns P' T' (acc @ [(n, c)])"
      unfolding names_inv_def using inv cA cB tog gone new by auto
    then show ?thesis using Cons.IH[OF ml] by blast
  qed
qed

text \<open>
  C1, as stated, fails: two iterations append an entry with the display name "Shrooms",
  because two different TripSit records carry that pretty name and it is shorter than
  the PsychonautWiki names they are merged with.
\<close>

theorem same_name_twice_counterexample:
  "map_sum id (map (map_prod id c_name))
     (reconcile_trace [pw_psilocin, pw_psilocybin] [ts_psilocin, ts_psilocybin])
   = Inr [(''psilocin'', ''Shrooms''), (''psilocybin'', ''Shrooms'')]"
  by code_simp

text \<open>
  C1, amended. The loop removes a matched record from its list, so no record gives its
  name to two entries; it does not compare display names. No two entries of the output
  have the same display name when the input is such that no two PsychonautWiki records have
  the same non-empty name, no two TripSit records have the same non-empty pretty name, and
  every pair of a PsychonautWiki and a TripSit record with the same candidate is found
  together by the names of the iteration.
\<close>

theorem reconcile_names_distinct:
  assumes "distinct (nonempty (map s_name P))" and "distinct (nonempty (map s_pretty_name T))"
    and "found_together (all_substance_names P T) P T"
    and "reconcile P T = Inr out"
  shows "distinct (map c_name out)"
proof -
  obtain tr where tr: "reconcile_trace P T = Inr tr" "out = map snd tr"
    using assms(4) by (auto simp: reconcile_def split: sum.splits)
  have "names_inv (all_substance_names P T) P T []"
    using assms(1-3) by (simp add: names_inv_def)
  then have "distinct (map (\<lambda>e. c_name (snd e)) tr)"
    using merge_loop_names_inv tr(1) unfolding reconcile_trace_def by blast
  then show ?thesis
    using tr(2) by (simp add: comp_def)
qed

theorem reconcile_names_distinct_witness:
  "distinct (nonempty (map s_name [pw_lsd, pw_ketamine]))
   \<and> distinct (nonempty (map s_pretty_name [ts_ketamine, ts_lsd]))
   \<and> found_together (all_substance_names [pw_lsd, pw_ketamine] [ts_ketamine, ts_lsd])
         [pw_lsd, pw_ketamine] [ts_ketamine, ts_lsd]
   \<and> reconcile [pw_lsd, pw_ketamine] [ts_ketamine, ts_lsd]
       = Inr (projr (reconcile [pw_lsd, pw_ketamine] [ts_ketamine, ts_lsd]))
   \<and> map c_name (projr (reconcile [pw_lsd, pw_ketamine] [ts_ketamine, ts_lsd]))
       = [''Ketamine'', ''LSD'']
   \<and> distinct (map c_name (projr (reconcile [pw_lsd, pw_ketamine] [ts_ketamine, ts_lsd])))"
proof -
  have a: "distinct (nonempty (map s_name [pw_lsd, pw_ketamine]))"
    by code_simp
  have b: "distinct (nonempty (map s_pretty_name [ts_ketamine, ts_lsd]))"
    by code_simp
  have t: "found_together (all_substance_names [pw_lsd, pw_ketamine] [ts_ketamine, ts_lsd])
             [pw_lsd, pw_ketamine] [ts_ketamine, ts_lsd]"
    by code_simp
  have r: "reconcile [pw_lsd, pw_ketamine] [ts_ketamine, ts_lsd]
       = Inr (projr (reconcile [pw_lsd, pw_ketamine] [ts_ketamine, ts_lsd]))"
    by code_simp
  have v: "map c_name (projr (reconcile [pw_lsd, pw_ketamine] [ts_ketamine, ts_lsd]))
       = [''Ketamine'', ''LSD'']"
    by code_simp
  show ?thesis
    using a b t r v reconcile_names_distinct [OF a b t r] by blast
qed

subsection \<open>What the loop body writes\<close>

lemma combos_loop_frame:
  "combos_loop cs = Inr (m, is) \<Longrightarrow>
     m = map (\<lambda>(key, combo_data). (key, if key \<in> set ts_combo_ignore then combo_data
            else combo_data\<lparr>combo_name := map_of ts_combo_transformations key\<rparr>)) cs"
  by (induction cs arbitrary: m "is")
     (auto simp: Let_def split: if_splits option.splits sum.splits prod.splits)

lemma interactions_merger_frame:
  "interactions_merger ts = Inr (i, ts') \<Longrightarrow>
     ts' = map_option (\<lambda>t. t\<lparr>s_combos := map_option (map (\<lambda>(key, combo_data).
              (key, if key \<in> set ts_combo_ignore then combo_data
                    else combo_data\<lparr>combo_name := map_of ts_combo_transformations key\<rparr>)))
            (s_combos t)\<rparr>) ts"
  by (cases ts)
     (auto simp: interactions_merger_def field_def dest: combos_loop_frame
           split: option.splits if_splits sum.splits)

text \<open>
  C2, as stated, fails: after the loop body has run on the two LSD entries, the TripSit
  record is not what it was; its combo entry for "mdma" has got the key \<open>name\<close>.
\<close>

theorem merge_fields_writes_combo_counterexample:
  "map_sum id (snd \<circ> snd) (merge_fields (Some pw_lsd) (Some ts_lsd))
     = Inr (Some (ts_lsd\<lparr>s_combos := Some [(''mdma'',
                    \<lparr>combo_name = Some ''MDMA'', combo_body = ''Low Risk''\<rparr>)]\<rparr>))
   \<and> ts_lsd\<lparr>s_combos := Some [(''mdma'',
                    \<lparr>combo_name = Some ''MDMA'', combo_body = ''Low Risk''\<rparr>)]\<rparr> \<noteq> ts_lsd"
  by code_simp

text \<open>
  C2, amended. When the loop body ends without an exception, the PsychonautWiki record is
  unchanged, and the TripSit record is unchanged except for its \<open>combos\<close>: every combo
  entry whose key is not in the ignore list has its \<open>name\<close> set to the display name of the
  table, and entries under ignored keys are as before. All other field mergers only read.
\<close>

theorem merge_fields_frame:
  assumes "merge_fields pw ts = Inr (r, pw', ts')"
  shows "pw' = pw
     \<and> ts' = map_option (\<lambda>t. t\<lparr>s_combos := map_option (map (\<lambda>(key, combo_data).
              (key, if key \<in> set ts_combo_ignore then combo_data
                    else combo_data\<lparr>combo_name := map_of ts_combo_transformations key\<rparr>)))
            (s_combos t)\<rparr>) ts"
proof -
  obtain i where "interactions_merger ts = Inr (i, ts')" "pw' = pw"
    using assms by (auto simp: merge_fields_def Let_def split: sum.splits if_splits)
  then show ?thesis
    using interactions_merger_frame by blast
qed

theorem merge_fields_frame_witness:
  "merge_fields (Some pw_lsd) (Some ts_lsd)
     = Inr (Some canonical_lsd, Some pw_lsd,
            Some (ts_lsd\<lparr>s_combos := Some [(''mdma'',
                    \<lparr>combo_name = Some ''MDMA'', combo_body = ''Low Risk''\<rparr>)]\<rparr>))
   \<and> Some (ts_lsd\<lparr>s_combos := Some [(''mdma'',
                    \<lparr>combo_name = Some ''MDMA'', combo_body = ''Low Risk''\<rparr>)]\<rparr>)
     = map_option (\<lambda>t. t\<lparr>s_combos := map_option (map (\<lambda>(key, combo_data).
              (key, if key \<in> set ts_combo_ignore then combo_data
                    else combo_data\<lparr>combo_name := map_of ts_combo_transformations key\<rparr>)))
            (s_combos t)\<rparr>) (Some ts_lsd)"
proof -
  have m: "merge_fields (Some pw_lsd) (Some ts_lsd)
     = Inr (Some canonical_lsd, Some pw_lsd,
            Some (ts_lsd\<lparr>s_combos := Some [(''mdma'',
                    \<lparr>combo_name = Some ''MDMA'', combo_body = ''Low Risk''\<rparr>)]\<rparr>))"
    by code_simp
  show ?thesis
    using m merge_fields_frame [OF m] by blast
qed

subsection \<open>Aliases\<close>

text \<open>
  C8, as stated, fails: an empty string in an alias list is part of the union that the
  claim describes, but line 387 filters it out before the set is built.
\<close>

theorem empty_alias_counterexample:
  "map_sum id (map_option c_name \<circ> fst) (merge_fields (Some pw_psilocin) None)
     = Inr (Some ''Psilocin'')
   \<and> map_sum id (map_option c_aliases \<circ> fst) (merge_fields (Some pw_psilocin) None)
     = Inr (Some [''4-ho-dmt''])
   \<and> aliases_as_claimed (Some pw_psilocin) None ''Psilocin'' = ['''', ''4-ho-dmt'']"
  by code_simp

text \<open>
  C8, amended. The alias list is the sorted list of the set of the lowercased non-empty
  strings among the PsychonautWiki name, the TripSit pretty name and the entries of both
  alias lists, without the lowercased display name; so it never contains the lowercased
  display name. An emitted record carries that list for its own display name.
\<close>

theorem aliases_merger_sorted_union:
  "aliases_merger pw ts nm
     = sorted_list_of_set
         (lower ` {a \<in> set (present [field pw s_name, field ts s_pretty_name])
                        \<union> set (list_field pw s_aliases) \<union> set (list_field ts s_aliases).
                   a \<noteq> []}
          - {lower nm})
   \<and> lower nm \<notin> set (aliases_merger pw ts nm)
   \<and> (merge_fields pw ts = Inr (Some c, pw', ts') \<longrightarrow>
        c_aliases c = aliases_merger pw ts (c_name c))"
proof -
  define vs where "vs = [field pw s_name, field ts s_pretty_name]
             @ map Some (list_field pw s_aliases) @ map Some (list_field ts s_aliases)"
  define s where "s = remdups (map lower (nonempty vs))"
  define s' where "s' = (if lower nm \<in> set s then remove1 (lower nm) s else s)"
  have pv: "present vs = present [field pw s_name, field ts s_pretty_name]
                          @ list_field pw s_aliases @ list_field ts s_aliases"
    unfolding vs_def by (simp only: present_append present_map_Some)
  have am: "aliases_merger pw ts nm = sort s'"
    by (simp add: aliases_merger_def Let_def s'_def s_def vs_def)
  have ds: "distinct s"
    by (simp add: s_def)
  then have ds': "distinct s'"
    by (simp add: s'_def)
  have "set s' = set s - {lower nm}"
    using ds by (auto simp: s'_def)
  moreover have "set s = lower ` {a \<in> set (present [field pw s_name, field ts s_pretty_name])
                        \<union> set (list_field pw s_aliases) \<union> set (list_field ts s_aliases).
                                  a \<noteq> []}"
    by (auto simp: s_def nonempty_def pv)
  moreover have "sort s' = sorted_list_of_set (set s')"
    using ds' by (simp add: sorted_list_of_set_sort_remdups distinct_remdups_id)
  ultimately show ?thesis
    using am merge_fields_emit[of pw ts c pw' ts'] by auto
qed

theorem aliases_merger_sorted_union_witness:
  "merge_fields (Some pw_lsd) (Some ts_lsd)
     = Inr (Some canonical_lsd, Some pw_lsd,
            Some (ts_lsd\<lparr>s_combos := Some [(''mdma'',
                    \<lparr>combo_name = Some ''MDMA'', combo_body = ''Low Risk''\<rparr>)]\<rparr>))
   \<and> c_aliases canonical_lsd
       = aliases_merger (Some pw_lsd) (Some ts_lsd) (c_name canonical_lsd)
   \<and> c_aliases canonical_lsd = [''acid'']
   \<and> lower (c_name canonical_lsd) \<notin> set (c_aliases canonical_lsd)"
proof -
  have m: "merge_fields (Some pw_lsd) (Some ts_lsd)
     = Inr (Some canonical_lsd, Some pw_lsd,
            Some (ts_lsd\<lparr>s_combos := Some [(''mdma'',
                    \<lparr>combo_name = Some ''MDMA'', combo_body = ''Low Risk''\<rparr>)]\<rparr>))"
    by code_simp
  have a: "c_aliases canonical_lsd = [''acid'']"
    by (simp add: canonical_lsd_def)
  show ?thesis
    using m a aliases_merger_sorted_union
      [of "Some pw_lsd" "Some ts_lsd" "c_name canonical_lsd" canonical_lsd "Some pw_lsd"
          "Some (ts_lsd\<lparr>s_combos := Some [(''mdma'',
                    \<lparr>combo_name = Some ''MDMA'', combo_body = ''Low Risk''\<rparr>)]\<rparr>)"]
    by metis
qed

subsection \<open>Exceptions\<close>

text \<open>
  C3. The claim says that malformed or missing optional fields never make the field
  mergers raise. The code raises on two of the inputs that the claim names: with an empty
  pretty name and no PsychonautWiki record, \<open>min\<close> of line 380 gets the empty list
  (ValueError); with a combo key outside the table, the subscript of line 439 fails
  (KeyError). Either exception ends the whole reconciliation.
\<close>

theorem field_mergers_raise:
  "merge_fields None (Some ts_unnamed) = Inl ValueError
   \<and> reconcile [] [ts_unnamed] = Inl ValueError
   \<and> merge_fields (Some pw_lsd) (Some ts_new_combo) = Inl (KeyError ''diphenhydramine'')
   \<and> reconcile [pw_lsd] [ts_new_combo] = Inl (KeyError ''diphenhydramine'')"
  by code_simp

text \<open>
  C4. A query that fails on every attempt is tried three times, with one second of sleep
  after each failure, and the helper then returns None. The call site does not treat the
  substance as absent: \<open>len(None)\<close> raises, and the handler ends the run with exit code 1.
\<close>

theorem failed_query_exits:
  "try_three_times (\<lambda>k. Raises ''timeout'' :: pw_data list attempt)
     = (None, [Call 0, PrintErr ''timeout'', Sleep 1,
               Call 1, PrintErr ''timeout'', Sleep 1,
               Call 2, PrintErr ''timeout'', Sleep 1])
   \<and> query_call_site (fst (try_three_times (\<lambda>k. Raises ''timeout'' :: pw_data list attempt)))
     = Exit 1"
  by code_simp

end
